theory Spec2Isabelle
  imports Main
begin

section \<open>Strings of the program\<close>

text \<open>
  A JavaScript string is a sequence of UTF-16 code units. The model covers the strings
  whose code units are below 256 (the Latin-1 range), one \<^typ>\<open>char\<close> per code unit.
  On that range \<open>String.prototype.toLowerCase\<close> maps \<open>A\<close>..\<open>Z\<close> (65..90) and the
  accented capitals 192..214 and 216..222 to the code unit 32 above and fixes every other
  code unit; \<open>String.prototype.trim\<close> strips the code units 9, 10, 11, 12, 13, 32 and 160
  (the ECMAScript WhiteSpace and LineTerminator productions) from both ends.
\<close>

definition isUpperCase :: "char \<Rightarrow> bool" where
  "isUpperCase c =
     (let n = (of_char c :: nat)
      in (65 \<le> n \<and> n \<le> 90) \<or> (192 \<le> n \<and> n \<le> 214) \<or> (216 \<le> n \<and> n \<le> 222))"

definition toLowerChar :: "char \<Rightarrow> char" where
  "toLowerChar c = (if isUpperCase c then char_of (of_char c + (32 :: nat)) else c)"

definition toLowerCase :: "string \<Rightarrow> string" where
  "toLowerCase s = map toLowerChar s"

definition isWhiteSpace :: "char \<Rightarrow> bool" where
  "isWhiteSpace c =
     (let n = (of_char c :: nat)
      in n = 9 \<or> n = 10 \<or> n = 11 \<or> n = 12 \<or> n = 13 \<or> n = 32 \<or> n = 160)"

definition trimStart :: "string \<Rightarrow> string" where
  "trimStart s = dropWhile isWhiteSpace s"

definition trimEnd :: "string \<Rightarrow> string" where
  "trimEnd s = rev (dropWhile isWhiteSpace (rev s))"

definition trim :: "string \<Rightarrow> string" where
  "trim s = trimEnd (trimStart s)"

text \<open>
  \<^verbatim>\<open>function getCacheKey(location) { return `weather:${location.toLowerCase().trim()}`; }\<close>
\<close>

definition getCacheKey :: "string \<Rightarrow> string" where
  "getCacheKey location = ''weather:'' @ trim (toLowerCase location)"


section \<open>Errors, values and the JSON codec\<close>

text \<open>
  A thrown value is an \<open>error\<close>; a function that can throw returns \<open>error + 'a\<close>, the
  error on the left. \<open>TRPCError\<close> carries its code and message; the other constructors are
  the errors of the libraries: a rejected Redis command, a \<open>SyntaxError\<close> of \<open>JSON.parse\<close>,
  an \<open>AxiosError\<close> with \<open>error.response?.status\<close> (absent on a timeout or a network
  failure), and any other thrown value.
\<close>

datatype trpc_code = BAD_REQUEST | INTERNAL_SERVER_ERROR | TOO_MANY_REQUESTS

datatype error =
    TRPCError trpc_code string
  | RedisError
  | SyntaxError
  | AxiosError "nat option"
  | OtherError

definition isTRPCError :: "error \<Rightarrow> bool" where
  "isTRPCError e = (case e of TRPCError c m \<Rightarrow> True | _ \<Rightarrow> False)"

text \<open>The HTTP status tRPC answers with for each error code used by the routers.\<close>

definition httpStatus :: "trpc_code \<Rightarrow> nat" where
  "httpStatus c = (case c of BAD_REQUEST \<Rightarrow> 400 | INTERNAL_SERVER_ERROR \<Rightarrow> 500
     | TOO_MANY_REQUESTS \<Rightarrow> 429)"

text \<open>
  The type \<open>WeatherData\<close> is declared in \<open>lib/weather/types\<close>; the router and the
  helpers only pass its values around, so it is the type parameter \<open>'w\<close>, and
  \<open>JSON.stringify\<close> and \<open>JSON.parse\<close> on it are parameters too, the record \<open>'w JSON\<close>.
  What \<open>JSON.parse\<close> returns is seen by
  the program only through its truthiness: \<open>Null\<close>, \<open>Falsy\<close> (\<open>false\<close>, \<open>0\<close>, the empty
  string) or a truthy value. \<open>JSON.parse\<close> returning \<open>None\<close> is a thrown \<open>SyntaxError\<close>.
\<close>

datatype 'w jsvalue = Null | Falsy | Val 'w

record 'w JSON =
  stringify :: "'w \<Rightarrow> string"
  parse :: "string \<Rightarrow> 'w jsvalue option"

section \<open>The world: Redis, the upstream provider, the console\<close>

text \<open>
  A Redis entry is a string with its remaining time to live in seconds (\<open>None\<close>: the key
  never expires). The world holds the module variable \<open>redisClient\<close> (whether the
  singleton has been created), the Redis store, the schedule of backend failures (one flag
  per Redis command issued, \<open>True\<close> for a command that is rejected without taking effect;
  an exhausted schedule means a healthy backend), what the upstream provider answers for a
  location, and the trace of commands, outbound calls and console lines.
\<close>

record entry =
  data :: string
  ttl :: "nat option"

datatype command =
    INCR string
  | EXPIRE string nat
  | GET string
  | SETEX string nat string
  | DEL string

datatype event = Redis command | HttpGet string | ConsoleError string

datatype 'w http_outcome = Response nat 'w | Timeout | NetworkFailure | NonAxiosFailure

record 'w world =
  redisClient :: bool
  redis :: "string \<rightharpoonup> entry"
  faults :: "bool list"
  upstream :: "string \<Rightarrow> 'w http_outcome"
  events :: "event list"

definition console_error :: "string \<Rightarrow> 'w world \<Rightarrow> 'w world" where
  "console_error msg w = w\<lparr>events := events w @ [ConsoleError msg]\<rparr>"

text \<open>Time passing: every expiring key loses \<open>d\<close> seconds and is gone at zero.\<close>

definition elapse :: "nat \<Rightarrow> 'w world \<Rightarrow> 'w world" where
  "elapse d w =
     w\<lparr>redis := (\<lambda>k. case redis w k of
         None \<Rightarrow> None
       | Some e \<Rightarrow> (case ttl e of
             None \<Rightarrow> Some e
           | Some t \<Rightarrow> if t \<le> d then None else Some (e\<lparr>ttl := Some (t - d)\<rparr>)))\<rparr>"

subsection \<open>Decimal integers as Redis stores them\<close>

text \<open>
  \<open>INCR\<close> reads the stored string as a signed 64-bit decimal: an optional minus sign, no
  leading zero, digits only, from \<open>-2^63\<close> = -9223372036854775808 to \<open>2^63 - 1\<close>;
  anything else is an error, and so is an increment beyond \<open>2^63 - 1\<close>.
\<close>

definition digit_char :: "nat \<Rightarrow> char" where
  "digit_char d = char_of (48 + d)"

fun show_nat :: "nat \<Rightarrow> string" where
  "show_nat n = (if n < 10 then [digit_char n] else show_nat (n div 10) @ [digit_char (n mod 10)])"

declare show_nat.simps [simp del]

definition show_ll :: "int \<Rightarrow> string" where
  "show_ll i = (if i < 0 then CHR ''-'' # show_nat (nat (- i)) else show_nat (nat i))"

definition is_digit :: "char \<Rightarrow> bool" where
  "is_digit c = (48 \<le> (of_char c :: nat) \<and> (of_char c :: nat) \<le> 57)"

definition digit_val :: "char \<Rightarrow> nat" where
  "digit_val c = of_char c - 48"

definition parse_digits :: "string \<Rightarrow> nat" where
  "parse_digits s = foldl (\<lambda>a c. 10 * a + digit_val c) 0 s"

definition parse_pos :: "string \<Rightarrow> nat option" where
  "parse_pos s =
     (case s of
        [] \<Rightarrow> None
      | c # cs \<Rightarrow>
          if is_digit c \<and> c \<noteq> CHR ''0'' \<and> list_all is_digit cs then Some (parse_digits s)
          else None)"

definition parse_ll :: "string \<Rightarrow> int option" where
  "parse_ll s =
     (if s = ''0'' then Some 0
      else if s \<noteq> [] \<and> hd s = CHR ''-'' then
        (case parse_pos (tl s) of
           None \<Rightarrow> None
         | Some n \<Rightarrow> if int n \<le> 9223372036854775808 then Some (- int n) else None)
      else
        (case parse_pos s of
           None \<Rightarrow> None
         | Some n \<Rightarrow> if int n \<le> 9223372036854775807 then Some (int n) else None))"

subsection \<open>The Redis commands the program uses\<close>

text \<open>
  Issuing a command records it in the trace and takes the next flag of the failure
  schedule; the result says whether the command reaches the store (\<open>backendUp\<close>: the
  next flag is not a failure).
\<close>

definition backendUp :: "'w world \<Rightarrow> bool" where
  "backendUp w = (case faults w of [] \<Rightarrow> True | f # fs \<Rightarrow> \<not> f)"

definition issue :: "command \<Rightarrow> 'w world \<Rightarrow> bool \<times> 'w world" where
  "issue c w = (backendUp w, w\<lparr>faults := tl (faults w), events := events w @ [Redis c]\<rparr>)"

definition client_incr :: "string \<Rightarrow> 'w world \<Rightarrow> (error + int) \<times> 'w world" where
  "client_incr k w =
     (case issue (INCR k) w of (ok, w1) \<Rightarrow>
        if \<not> ok then (Inl RedisError, w1)
        else (case redis w1 k of
            None \<Rightarrow> (Inr 1, w1\<lparr>redis := (redis w1)(k \<mapsto> \<lparr>data = show_ll 1, ttl = None\<rparr>)\<rparr>)
          | Some e \<Rightarrow> (case parse_ll (data e) of
                None \<Rightarrow> (Inl RedisError, w1)
              | Some n \<Rightarrow>
                  if n \<ge> 9223372036854775807 then (Inl RedisError, w1)
                  else (Inr (n + 1),
                        w1\<lparr>redis := (redis w1)(k \<mapsto> e\<lparr>data := show_ll (n + 1)\<rparr>)\<rparr>))))"

definition client_expire :: "string \<Rightarrow> nat \<Rightarrow> 'w world \<Rightarrow> (error + int) \<times> 'w world" where
  "client_expire k seconds w =
     (case issue (EXPIRE k seconds) w of (ok, w1) \<Rightarrow>
        if \<not> ok then (Inl RedisError, w1)
        else (case redis w1 k of
            None \<Rightarrow> (Inr 0, w1)
          | Some e \<Rightarrow>
              if seconds = 0 then (Inr 1, w1\<lparr>redis := (redis w1)(k := None)\<rparr>)
              else (Inr 1, w1\<lparr>redis := (redis w1)(k \<mapsto> e\<lparr>ttl := Some seconds\<rparr>)\<rparr>)))"

definition client_get :: "string \<Rightarrow> 'w world \<Rightarrow> (error + string option) \<times> 'w world" where
  "client_get k w =
     (case issue (GET k) w of (ok, w1) \<Rightarrow>
        if \<not> ok then (Inl RedisError, w1)
        else (Inr (map_option data (redis w1 k)), w1))"

definition client_setex ::
  "string \<Rightarrow> nat \<Rightarrow> string \<Rightarrow> 'w world \<Rightarrow> (error + unit) \<times> 'w world" where
  "client_setex k seconds v w =
     (case issue (SETEX k seconds v) w of (ok, w1) \<Rightarrow>
        if \<not> ok then (Inl RedisError, w1)
        else if seconds = 0 then (Inl RedisError, w1)
        else (Inr (), w1\<lparr>redis := (redis w1)(k \<mapsto> \<lparr>data = v, ttl = Some seconds\<rparr>)\<rparr>))"

definition client_del :: "string \<Rightarrow> 'w world \<Rightarrow> (error + int) \<times> 'w world" where
  "client_del k w =
     (case issue (DEL k) w of (ok, w1) \<Rightarrow>
        if \<not> ok then (Inl RedisError, w1)
        else (Inr (if redis w1 k = None then 0 else 1), w1\<lparr>redis := (redis w1)(k := None)\<rparr>))"

section \<open>The Redis helpers (\<open>lib/redis\<close>)\<close>

text \<open>
  \<open>getRedisClient\<close> creates the singleton on first use. The constructor connects in the
  background and does not throw when the backend is down; a failing backend shows as
  rejected commands.
\<close>

definition getRedisClient :: "'w world \<Rightarrow> 'w world" where
  "getRedisClient w = (if \<not> redisClient w then w\<lparr>redisClient := True\<rparr> else w)"

text \<open>
  \<^verbatim>\<open>
  export async function getCached<T>(key) {
    try {
      const client = getRedisClient();
      const data = await client.get(key);
      return data ? (JSON.parse(data) as T) : null;
    } catch (error) { console.error("Redis GET error:", error); return null; }
  }\<close>
  The function \<open>getCached_try\<close> is the body of the \<open>try\<close> block.
\<close>

definition getCached_try ::
  "'w JSON \<Rightarrow> string \<Rightarrow> 'w world \<Rightarrow> (error + 'w jsvalue) \<times> 'w world" where
  "getCached_try J key w =
     (let client = getRedisClient w
      in case client_get key client of
           (Inl err, w1) \<Rightarrow> (Inl err, w1)
         | (Inr d, w1) \<Rightarrow>
             (case d of
                None \<Rightarrow> (Inr Null, w1)
              | Some s \<Rightarrow>
                  if s = [] then (Inr Null, w1)
                  else (case parse J s of
                      None \<Rightarrow> (Inl SyntaxError, w1)
                    | Some v \<Rightarrow> (Inr v, w1))))"

definition getCached ::
  "'w JSON \<Rightarrow> string \<Rightarrow> 'w world \<Rightarrow> (error + 'w jsvalue) \<times> 'w world" where
  "getCached J key w =
     (case getCached_try J key w of
        (Inl err, w1) \<Rightarrow> (Inr Null, console_error ''Redis GET error:'' w1)
      | (Inr v, w1) \<Rightarrow> (Inr v, w1))"

text \<open>
  \<^verbatim>\<open>
  export async function setCached(key, value, ttlSeconds) {
    try {
      const client = getRedisClient();
      await client.setex(key, ttlSeconds, JSON.stringify(value));
    } catch (error) { console.error("Redis SET error:", error); }
  }\<close>
\<close>

definition setCached_try ::
  "'w JSON \<Rightarrow> string \<Rightarrow> 'w \<Rightarrow> nat \<Rightarrow> 'w world \<Rightarrow> (error + unit) \<times> 'w world" where
  "setCached_try J key v ttlSeconds w =
     (let client = getRedisClient w
      in case client_setex key ttlSeconds (stringify J v) client of
           (Inl err, w1) \<Rightarrow> (Inl err, w1)
         | (Inr u, w1) \<Rightarrow> (Inr (), w1))"

definition setCached ::
  "'w JSON \<Rightarrow> string \<Rightarrow> 'w \<Rightarrow> nat \<Rightarrow> 'w world \<Rightarrow> (error + unit) \<times> 'w world" where
  "setCached J key v ttlSeconds w =
     (case setCached_try J key v ttlSeconds w of
        (Inl err, w1) \<Rightarrow> (Inr (), console_error ''Redis SET error:'' w1)
      | (Inr u, w1) \<Rightarrow> (Inr (), w1))"

text \<open>
  \<^verbatim>\<open>
  export async function delCached(key) {
    try {
      const client = getRedisClient();
      await client.del(key);
    } catch (error) { console.error("Redis DEL error:", error); }
  }\<close>
\<close>

definition delCached_try :: "string \<Rightarrow> 'w world \<Rightarrow> (error + unit) \<times> 'w world" where
  "delCached_try key w =
     (let client = getRedisClient w
      in case client_del key client of
           (Inl err, w1) \<Rightarrow> (Inl err, w1)
         | (Inr n, w1) \<Rightarrow> (Inr (), w1))"

definition delCached :: "string \<Rightarrow> 'w world \<Rightarrow> (error + unit) \<times> 'w world" where
  "delCached key w =
     (case delCached_try key w of
        (Inl err, w1) \<Rightarrow> (Inr (), console_error ''Redis DEL error:'' w1)
      | (Inr u, w1) \<Rightarrow> (Inr (), w1))"

section \<open>The weather fetcher (\<open>lib/weather/weather\<close>)\<close>

text \<open>
  \<open>axios.get\<close> makes one outbound call. With the default \<open>validateStatus\<close> it resolves
  with the body for a status from 200 to 299 and rejects with an \<open>AxiosError\<close> carrying
  the status otherwise; a timeout (after \<open>ms("10s")\<close>) or a network failure rejects with an
  \<open>AxiosError\<close> without a response.
\<close>

definition axios_get :: "string \<Rightarrow> 'w world \<Rightarrow> (error + 'w) \<times> 'w world" where
  "axios_get location w =
     (let w1 = w\<lparr>events := events w @ [HttpGet location]\<rparr>
      in case upstream w location of
           Response status body \<Rightarrow>
             if 200 \<le> status \<and> status < 300 then (Inr body, w1)
             else (Inl (AxiosError (Some status)), w1)
         | Timeout \<Rightarrow> (Inl (AxiosError None), w1)
         | NetworkFailure \<Rightarrow> (Inl (AxiosError None), w1)
         | NonAxiosFailure \<Rightarrow> (Inl OtherError, w1))"

text \<open>
  \<^verbatim>\<open>
  export async function fetchWeather(location) {
    ...
    try {
      const response = await axios.get(url.toString(), { timeout: ms("10s") });
      return response.data;
    } catch (error) {
      if (error instanceof AxiosError) {
        if (error.response?.status === 400)
          throw new TRPCError({ code: "BAD_REQUEST", message: "Invalid location provided" });
        if (error.response?.status === 401)
          throw new TRPCError({ code: "INTERNAL_SERVER_ERROR",
                                message: "Weather API authentication failed" });
      }
      throw new TRPCError({ code: "INTERNAL_SERVER_ERROR",
                            message: "Weather API request failed", cause: error });
    }
  }\<close>
\<close>

definition fetchWeather :: "string \<Rightarrow> 'w world \<Rightarrow> (error + 'w) \<times> 'w world" where
  "fetchWeather location w =
     (case axios_get location w of
        (Inr body, w1) \<Rightarrow> (Inr body, w1)
      | (Inl err, w1) \<Rightarrow>
          (case err of
             AxiosError status \<Rightarrow>
               if status = Some 400 then
                 (Inl (TRPCError BAD_REQUEST ''Invalid location provided''), w1)
               else if status = Some 401 then
                 (Inl (TRPCError INTERNAL_SERVER_ERROR ''Weather API authentication failed''), w1)
               else (Inl (TRPCError INTERNAL_SERVER_ERROR ''Weather API request failed''), w1)
           | _ \<Rightarrow> (Inl (TRPCError INTERNAL_SERVER_ERROR ''Weather API request failed''), w1)))"

section \<open>The weather router (\<open>routers/weather\<close>)\<close>

text \<open>
  \<^verbatim>\<open>const CACHE_TTL_SECONDS = ms("12h") / 1000;\<close> With \<open>ms("12h") = 43200000\<close> this is
  43200 seconds; likewise \<open>ms("1h") / 1000\<close> is 3600 seconds.
\<close>

definition CACHE_TTL_SECONDS :: nat where
  "CACHE_TTL_SECONDS = 43200"

text \<open>
  \<^verbatim>\<open>
  async function checkRateLimit(identifier) {
    const client = getRedisClient();
    const key = `ratelimit:weather:${identifier}`;
    const limit = 100;
    const window = ms("1h") / 1000;
    try {
      const current = await client.incr(key);
      if (current === 1) { await client.expire(key, window); }
      if (current > limit) { throw new TRPCError({ code: "TOO_MANY_REQUESTS", ... }); }
    } catch (error) {
      if (error instanceof TRPCError) throw error;
      console.error("Rate limit check failed:", error);
    }
  }\<close>
\<close>

definition rateLimitKey :: "string \<Rightarrow> string" where
  "rateLimitKey identifier = ''ratelimit:weather:'' @ identifier"

definition checkRateLimit_try ::
  "string \<Rightarrow> int \<Rightarrow> nat \<Rightarrow> 'w world \<Rightarrow> (error + unit) \<times> 'w world" where
  "checkRateLimit_try key limit window client =
     (case client_incr key client of
        (Inl err, w1) \<Rightarrow> (Inl err, w1)
      | (Inr current, w1) \<Rightarrow>
          (case (if current = 1 then client_expire key window w1 else (Inr 0, w1)) of
             (Inl err, w2) \<Rightarrow> (Inl err, w2)
           | (Inr r, w2) \<Rightarrow>
               if current > limit then
                 (Inl (TRPCError TOO_MANY_REQUESTS ''Rate limit exceeded. Try again later.''), w2)
               else (Inr (), w2)))"

definition checkRateLimit :: "string \<Rightarrow> 'w world \<Rightarrow> (error + unit) \<times> 'w world" where
  "checkRateLimit identifier w =
     (let client = getRedisClient w;
          key = rateLimitKey identifier;
          limit = 100;
          window = 3600
      in case checkRateLimit_try key limit window client of
           (Inl err, w1) \<Rightarrow>
             if isTRPCError err then (Inl err, w1)
             else (Inr (), console_error ''Rate limit check failed:'' w1)
         | (Inr u, w1) \<Rightarrow> (Inr (), w1))"

text \<open>
  The input schema \<open>z.object({ location: z.string().min(1) })\<close> is checked before the
  handler runs; a failure is a \<open>BAD_REQUEST\<close> whose message lists the schema's issues
  (abbreviated here).
\<close>

definition validateInput :: "string \<Rightarrow> error + string" where
  "validateInput location =
     (if length location < 1 then Inl (TRPCError BAD_REQUEST ''Input validation failed'')
      else Inr location)"

record 'w response =
  payload :: 'w
  fromCache :: bool

text \<open>
  \<^verbatim>\<open>
  getCurrent: publicProcedure.input(...).query(async ({ input, ctx }) => {
    const identifier = ctx.req?.header("x-forwarded-for") || "default";
    await checkRateLimit(identifier);
    const cacheKey = getCacheKey(input.location);
    const cached = await getCached<WeatherData>(cacheKey);
    if (cached) { return { ...cached, fromCache: true }; }
    const weatherData = await fetchWeather(input.location);
    setCached(cacheKey, weatherData, CACHE_TTL_SECONDS);
    return { ...weatherData, fromCache: false };
  })\<close>
  The header is \<open>None\<close> when the request has none. The call of \<open>setCached\<close> is not
  awaited: its command is issued and whatever it returns is dropped.
\<close>

definition identifierOf :: "string option \<Rightarrow> string" where
  "identifierOf header =
     (case header of None \<Rightarrow> ''default'' | Some h \<Rightarrow> if h = [] then ''default'' else h)"

definition getCurrent ::
  "'w JSON \<Rightarrow> string option \<Rightarrow> string \<Rightarrow> 'w world \<Rightarrow> (error + 'w response) \<times> 'w world" where
  "getCurrent J header location w =
     (case validateInput location of
        Inl err \<Rightarrow> (Inl err, w)
      | Inr loc \<Rightarrow>
          (let identifier = identifierOf header
           in case checkRateLimit identifier w of
                (Inl err, w1) \<Rightarrow> (Inl err, w1)
              | (Inr u, w1) \<Rightarrow>
                  (let cacheKey = getCacheKey loc
                   in case getCached J cacheKey w1 of
                        (Inl err, w2) \<Rightarrow> (Inl err, w2)
                      | (Inr cached, w2) \<Rightarrow>
                          (case cached of
                             Val c \<Rightarrow> (Inr \<lparr>payload = c, fromCache = True\<rparr>, w2)
                           | _ \<Rightarrow>
                               (case fetchWeather loc w2 of
                                  (Inl err, w3) \<Rightarrow> (Inl err, w3)
                                | (Inr weatherData, w3) \<Rightarrow>
                                    (Inr \<lparr>payload = weatherData, fromCache = False\<rparr>,
                                     snd (setCached J cacheKey weatherData
                                            CACHE_TTL_SECONDS w3)))))))"

text \<open>
  \<^verbatim>\<open>
  clearCache: publicProcedure.input(...).mutation(async ({ input }) => {
    try {
      const cacheKey = getCacheKey(input.location);
      await delCached(cacheKey);
      return { success: true };
    } catch (error) {
      throw new TRPCError({ code: "INTERNAL_SERVER_ERROR", message: "Failed to clear cache",
                            cause: error });
    }
  })\<close>
  The result \<open>Inr b\<close> is the response \<open>{ success: b }\<close>.
\<close>

definition clearCache :: "string \<Rightarrow> 'w world \<Rightarrow> (error + bool) \<times> 'w world" where
  "clearCache location w =
     (case validateInput location of
        Inl err \<Rightarrow> (Inl err, w)
      | Inr loc \<Rightarrow>
          (let cacheKey = getCacheKey loc
           in case delCached cacheKey w of
                (Inl err, w1) \<Rightarrow>
                  (Inl (TRPCError INTERNAL_SERVER_ERROR ''Failed to clear cache''), w1)
              | (Inr u, w1) \<Rightarrow> (Inr True, w1)))"

text \<open>
  A caller repeating \<open>checkRateLimit\<close>: the world after a run of calls, each made
  after the given delay in seconds.
\<close>

primrec callsAt :: "nat list \<Rightarrow> string \<Rightarrow> 'w world \<Rightarrow> 'w world" where
  "callsAt [] identifier w = w"
| "callsAt (d # ds) identifier w =
     callsAt ds identifier (snd (checkRateLimit identifier (elapse d w)))"

text \<open>Counting in a trace: the outbound calls and the \<open>EXPIRE\<close> commands.\<close>

definition fetches :: "'w world \<Rightarrow> nat" where
  "fetches w = length (filter (\<lambda>e. case e of HttpGet l \<Rightarrow> True | _ \<Rightarrow> False) (events w))"

definition expires :: "'w world \<Rightarrow> nat" where
  "expires w =
     length (filter (\<lambda>e. case e of Redis (EXPIRE k s) \<Rightarrow> True | _ \<Rightarrow> False) (events w))"

text \<open>
  The value of a caller's window counter as \<open>INCR\<close> reads it: 0 for an absent key,
  \<open>None\<close> for a stored string that is no 64-bit decimal.
\<close>

definition counter :: "string \<Rightarrow> 'w world \<Rightarrow> int option" where
  "counter identifier w =
     (case redis w (rateLimitKey identifier) of
        None \<Rightarrow> Some 0
      | Some e \<Rightarrow> parse_ll (data e))"

subsection \<open>A concrete instance\<close>

text \<open>
  For concrete runs the weather data is its JSON text: \<open>JSON.stringify\<close> is the identity,
  \<open>JSON.parse\<close> accepts \<open>null\<close> and the texts starting with a brace and throws on
  anything else. In \<open>exampleWorld\<close> the store is empty, the backend healthy, and the
  provider knows Paris, answers 400 for \<open>Nowhere\<close>, 401 for \<open>Locked\<close>, 503 for \<open>Down\<close>
  and times out on every other location.
\<close>

definition exampleJSON :: "string JSON" where
  "exampleJSON =
     \<lparr>stringify = (\<lambda>v. v),
      parse = (\<lambda>s. if s = ''null'' then Some Null
                    else if s \<noteq> [] \<and> hd s = CHR ''{'' then Some (Val s)
                    else None)\<rparr>"

definition exampleWorld :: "string world" where
  "exampleWorld =
     \<lparr>redisClient = False,
      redis = Map.empty,
      faults = [],
      upstream = (\<lambda>l. if l = ''Paris'' then Response 200 ''{temp:21}''
                       else if l = ''Nowhere'' then Response 400 []
                       else if l = ''Locked'' then Response 401 []
                       else if l = ''Down'' then Response 503 []
                       else Timeout),
      events = []\<rparr>"

text \<open>
  Two more worlds: in \<open>cachedWorld\<close> the cache holds an entry for Paris; in
  \<open>exhaustedWorld\<close> the caller without a forwarding header has, besides, used up the
  100 requests of the running window.
\<close>

definition cachedWorld :: "string world" where
  "cachedWorld =
     exampleWorld\<lparr>redis := [''weather:paris'' \<mapsto> \<lparr>data = ''{temp:19}'', ttl = Some 600\<rparr>]\<rparr>"

definition exhaustedWorld :: "string world" where
  "exhaustedWorld =
     exampleWorld\<lparr>redis :=
       [''weather:paris'' \<mapsto> \<lparr>data = ''{temp:19}'', ttl = Some 600\<rparr>,
        ''ratelimit:weather:default'' \<mapsto> \<lparr>data = ''100'', ttl = Some 1800\<rparr>]\<rparr>"

section \<open>Properties of the cache key\<close>












section \<open>The decimal codec of the counters\<close>

lemma char_of_48: "char_of (48 :: nat) = CHR ''0''"
proof -
  have "char_of (of_char CHR ''0'' :: nat) = CHR ''0''" by (rule char_of_char)
  then show ?thesis by simp
qed

lemma is_digit_digit_char: "d < 10 \<Longrightarrow> is_digit (digit_char d)"
  by (simp add: is_digit_def digit_char_def)

lemma digit_val_digit_char: "d < 10 \<Longrightarrow> digit_val (digit_char d) = d"
  by (simp add: digit_val_def digit_char_def)

lemma digit_char_zero: "d < 10 \<Longrightarrow> (digit_char d = CHR ''0'') = (d = 0)"
proof
  assume d: "d < 10" and eq: "digit_char d = CHR ''0''"
  have "d = digit_val (digit_char d)"
    using d by (simp add: digit_val_digit_char)
  also have "\<dots> = digit_val CHR ''0''"
    by (simp only: eq)
  finally show "d = 0" by (simp add: digit_val_def)
next
  assume "d = 0"
  then show "digit_char d = CHR ''0''" by (simp add: digit_char_def char_of_48)
qed

lemma digit_char_not_minus: "d < 10 \<Longrightarrow> digit_char d \<noteq> CHR ''-''"
proof -
  assume "d < 10"
  then have "is_digit (digit_char d)" by (rule is_digit_digit_char)
  moreover have "\<not> is_digit CHR ''-''" by (simp add: is_digit_def)
  ultimately show ?thesis by auto
qed

lemma show_nat_digits: "list_all is_digit (show_nat n)"
proof (induction n rule: show_nat.induct)
  case (1 n)
  then show ?case
    by (subst show_nat.simps) (simp add: is_digit_digit_char)
qed

lemma show_nat_nonempty: "show_nat n \<noteq> []"
  by (subst show_nat.simps) simp

lemma parse_digits_append:
  "parse_digits (s @ [c]) = 10 * parse_digits s + digit_val c"
  by (simp add: parse_digits_def)

lemma parse_digits_show_nat: "parse_digits (show_nat n) = n"
proof (induction n rule: show_nat.induct)
  case (1 n)
  show ?case
  proof (cases "n < 10")
    case True
    then show ?thesis
      by (subst show_nat.simps) (simp add: parse_digits_def digit_val_digit_char)
  next
    case False
    then have "parse_digits (show_nat (n div 10)) = n div 10"
      using 1 by simp
    then show ?thesis
      using False
      by (subst show_nat.simps) (simp add: parse_digits_append digit_val_digit_char)
  qed
qed

lemma hd_show_nat: "0 < n \<Longrightarrow> hd (show_nat n) \<noteq> CHR ''0''"
proof (induction n rule: show_nat.induct)
  case (1 n)
  show ?case
  proof (cases "n < 10")
    case True
    then show ?thesis
      using 1(2) by (subst show_nat.simps) (simp add: digit_char_zero)
  next
    case False
    then have "hd (show_nat (n div 10)) \<noteq> CHR ''0''"
      using 1 by simp
    then show ?thesis
      using False show_nat_nonempty [of "n div 10"]
      by (subst show_nat.simps) simp
  qed
qed

lemma hd_show_nat_not_minus: "hd (show_nat n) \<noteq> CHR ''-''"
proof -
  have "is_digit (hd (show_nat n))"
    using show_nat_digits [of n] show_nat_nonempty [of n]
    by (cases "show_nat n") simp_all
  moreover have "\<not> is_digit CHR ''-''" by (simp add: is_digit_def)
  ultimately show ?thesis by auto
qed

lemma parse_pos_show_nat: "0 < n \<Longrightarrow> parse_pos (show_nat n) = Some n"
proof -
  assume pos: "0 < n"
  obtain c cs where s: "show_nat n = c # cs"
    using show_nat_nonempty [of n] by (cases "show_nat n") auto
  have "is_digit c" "list_all is_digit cs"
    using show_nat_digits [of n] by (simp_all add: s)
  moreover have "c \<noteq> CHR ''0''"
    using hd_show_nat [OF pos] by (simp add: s)
  moreover have "parse_digits (c # cs) = n"
    using parse_digits_show_nat [of n] by (simp add: s)
  ultimately show ?thesis
    by (simp add: parse_pos_def s)
qed

lemma show_nat_0: "show_nat 0 = ''0''"
  by (subst show_nat.simps) (simp add: digit_char_def char_of_48)

lemma show_nat_eq_0: "(show_nat n = ''0'') = (n = 0)"
proof
  assume "show_nat n = ''0''"
  then have "parse_digits (show_nat n) = parse_digits ''0''" by simp
  then show "n = 0"
    by (simp add: parse_digits_show_nat) (simp add: parse_digits_def digit_val_def)
next
  assume "n = 0"
  then show "show_nat n = ''0''" by (simp add: show_nat_0)
qed

lemma parse_ll_show_ll:
  assumes "- (2 ^ 63) \<le> i" "i \<le> 2 ^ 63 - 1"
  shows "parse_ll (show_ll i) = Some i"
proof (cases "i < 0")
  case True
  then have pos: "0 < nat (- i)" by simp
  have "nat (- i) \<le> 2 ^ 63"
    using assms(1) True by (simp add: nat_le_iff)
  then show ?thesis
    using True parse_pos_show_nat [OF pos]
    by (simp add: parse_ll_def show_ll_def)
next
  case False
  show ?thesis
  proof (cases "i = 0")
    case True
    then show ?thesis by (simp add: parse_ll_def show_ll_def show_nat_0)
  next
    case nz: False
    then have pos: "0 < nat i" using False by simp
    have "nat i \<le> 2 ^ 63 - 1"
      using assms(2) False by (simp add: nat_le_iff)
    then show ?thesis
      using False nz parse_pos_show_nat [OF pos] hd_show_nat_not_minus [of "nat i"]
        show_nat_nonempty [of "nat i"]
      by (simp add: parse_ll_def show_ll_def show_nat_eq_0)
  qed
qed

section \<open>Effects of the rate limiter\<close>

lemma backendUp_update [simp]:
  "backendUp (w\<lparr>redisClient := b\<rparr>) = backendUp w"
  "backendUp (w\<lparr>redis := r\<rparr>) = backendUp w"
  "backendUp (w\<lparr>events := ev\<rparr>) = backendUp w"
  by (simp_all add: backendUp_def)

lemma backendUp_faults [simp]:
  "backendUp (w\<lparr>faults := fs\<rparr>) = (case fs of [] \<Rightarrow> True | f # fs' \<Rightarrow> \<not> f)"
  by (simp add: backendUp_def)

lemma backendUp_healthy: "faults w = [] \<Longrightarrow> backendUp w"
  by (simp add: backendUp_def)

lemma getRedisClient_fields [simp]:
  "redis (getRedisClient w) = redis w"
  "faults (getRedisClient w) = faults w"
  "upstream (getRedisClient w) = upstream w"
  "events (getRedisClient w) = events w"
  "redisClient (getRedisClient w) = True"
  "backendUp (getRedisClient w) = backendUp w"
  by (simp_all add: getRedisClient_def)

lemma parse_ll_range:
  "parse_ll s = Some n \<Longrightarrow> - (2 ^ 63) \<le> n \<and> n \<le> 2 ^ 63 - 1"
  by (auto simp: parse_ll_def split: if_splits option.splits)

lemma counter_range: "counter i w = Some n \<Longrightarrow> - (2 ^ 63) \<le> n \<and> n \<le> 2 ^ 63 - 1"
  by (auto simp: counter_def dest: parse_ll_range split: option.splits)

lemmas rate_defs =
  checkRateLimit_def checkRateLimit_try_def client_incr_def client_expire_def issue_def
  isTRPCError_def console_error_def Let_def

lemma checkRateLimit_down:
  assumes "\<not> backendUp w"
  shows "checkRateLimit i w =
     (Inr (), (getRedisClient w)\<lparr>faults := tl (faults w),
        events := events w @ [Redis (INCR (rateLimitKey i)), ConsoleError ''Rate limit check failed:'']\<rparr>)"
  using assms by (simp add: rate_defs)

lemma checkRateLimit_counter:
  assumes "backendUp w" "counter i w = Some n" "n < 2 ^ 63 - 1"
  shows "counter i (snd (checkRateLimit i w)) = Some (n + 1)"
  using assms counter_range [OF assms(2)]
  by (auto simp: rate_defs counter_def parse_ll_show_ll split: option.splits)

lemma checkRateLimit_verdict:
  assumes "backendUp w" "counter i w = Some n" "n < 2 ^ 63 - 1"
  shows "fst (checkRateLimit i w) =
     (if n + 1 \<le> 100 then Inr ()
      else Inl (TRPCError TOO_MANY_REQUESTS ''Rate limit exceeded. Try again later.''))"
  using assms
  by (auto simp: rate_defs counter_def split: option.splits)

lemma checkRateLimit_faults_healthy:
  "faults w = [] \<Longrightarrow> faults (snd (checkRateLimit i w)) = []"
  by (auto simp: rate_defs backendUp_def split: option.splits)

lemma checkRateLimit_upstream [simp]:
  "upstream (snd (checkRateLimit i w)) = upstream w"
  by (auto simp: rate_defs split: option.splits)

lemma checkRateLimit_frame:
  "k \<noteq> rateLimitKey i \<Longrightarrow> redis (snd (checkRateLimit i w)) k = redis w k"
  by (auto simp: rate_defs split: option.splits)

lemma checkRateLimit_fetches [simp]:
  "fetches (snd (checkRateLimit i w)) = fetches w"
  by (auto simp: rate_defs fetches_def split: option.splits)

lemma checkRateLimit_expires:
  "expires (snd (checkRateLimit i w)) =
     expires w + (if backendUp w \<and> counter i w = Some 0 then 1 else 0)"
  by (auto simp: rate_defs expires_def counter_def split: option.splits)

lemma checkRateLimit_no_refresh:
  assumes "counter i w = Some n" "n \<noteq> 0"
  shows "map_option ttl (redis (snd (checkRateLimit i w)) (rateLimitKey i)) =
         map_option ttl (redis w (rateLimitKey i))"
  using assms
  by (auto simp: rate_defs counter_def split: option.splits)

lemma checkRateLimit_first_ttl:
  assumes "backendUp w" "counter i w = Some 0" "backendUp (w\<lparr>faults := tl (faults w)\<rparr>)"
  shows "map_option ttl (redis (snd (checkRateLimit i w)) (rateLimitKey i)) = Some (Some 3600)"
  using assms
  by (auto simp: rate_defs counter_def split: option.splits)

lemma elapse_fields [simp]:
  "faults (elapse d w) = faults w"
  "upstream (elapse d w) = upstream w"
  "events (elapse d w) = events w"
  "redisClient (elapse d w) = redisClient w"
  "backendUp (elapse d w) = backendUp w"
  "expires (elapse d w) = expires w"
  "fetches (elapse d w) = fetches w"
  by (simp_all add: elapse_def expires_def fetches_def)

lemma elapse_absent: "redis w k = None \<Longrightarrow> redis (elapse d w) k = None"
  by (simp add: elapse_def)

lemma elapse_unbounded:
  "map_option ttl (redis w k) = Some None \<Longrightarrow> redis (elapse d w) k = redis w k"
  by (auto simp: elapse_def split: option.splits)

lemma elapse_within:
  assumes "map_option ttl (redis w k) = Some (Some t)" "d < t"
  shows "map_option ttl (redis (elapse d w) k) = Some (Some (t - d))"
    and "map_option data (redis (elapse d w) k) = map_option data (redis w k)"
  using assms by (auto simp: elapse_def split: option.splits)

lemma elapse_expired:
  assumes "map_option ttl (redis w k) = Some (Some t)" "t \<le> d"
  shows "redis (elapse d w) k = None"
  using assms by (auto simp: elapse_def split: option.splits)

lemma counter_data:
  "map_option data (redis w' (rateLimitKey i)) = map_option data (redis w (rateLimitKey i)) \<Longrightarrow>
   counter i w' = counter i w"
  by (auto simp: counter_def split: option.splits)

lemma callsAt_window:
  assumes "faults w = []" "counter i w = Some n" "1 \<le> n"
    "map_option ttl (redis w (rateLimitKey i)) = Some (Some t)"
    "sum_list ds < t" "n + int (length ds) \<le> 2 ^ 63 - 1"
  shows "faults (callsAt ds i w) = []
     \<and> counter i (callsAt ds i w) = Some (n + int (length ds))
     \<and> map_option ttl (redis (callsAt ds i w) (rateLimitKey i)) = Some (Some (t - sum_list ds))
     \<and> expires (callsAt ds i w) = expires w"
  using assms
proof (induction ds arbitrary: w n t)
  case Nil
  then show ?case by simp
next
  case (Cons d ds)
  let ?e = "elapse d w"
  let ?w = "snd (checkRateLimit i ?e)"
  have d: "d < t" and rest: "sum_list ds < t - d"
    using Cons.prems(5) by simp_all
  have up: "backendUp ?e"
    using Cons.prems(1) by (simp add: backendUp_def)
  have c: "counter i ?e = Some n"
    using counter_data [OF elapse_within(2) [OF Cons.prems(4) d]] Cons.prems(2) by simp
  have lt: "n < 2 ^ 63 - 1"
    using Cons.prems(6) by simp
  have nz: "n \<noteq> 0"
    using Cons.prems(3) by simp
  have 1: "faults ?w = []"
    using Cons.prems(1) by (simp add: checkRateLimit_faults_healthy)
  have 2: "counter i ?w = Some (n + 1)"
    using checkRateLimit_counter [OF up c lt] .
  have 3: "map_option ttl (redis ?w (rateLimitKey i)) = Some (Some (t - d))"
    using checkRateLimit_no_refresh [OF c nz] elapse_within(1) [OF Cons.prems(4) d] by simp
  have 4: "expires ?w = expires w"
    using c nz by (simp add: checkRateLimit_expires)
  have 5: "n + 1 + int (length ds) \<le> 2 ^ 63 - 1"
    using Cons.prems(6) by simp
  have 6: "1 \<le> n + 1"
    using Cons.prems(3) by simp
  show ?case
    using Cons.IH [OF 1 2 6 3 rest 5] 4 d rest
    by (simp add: algebra_simps)
qed

lemma checkRateLimit_fresh:
  assumes "faults w = []" "redis w (rateLimitKey i) = None"
  shows "faults (snd (checkRateLimit i w)) = []"
    and "counter i (snd (checkRateLimit i w)) = Some 1"
    and "map_option ttl (redis (snd (checkRateLimit i w)) (rateLimitKey i)) = Some (Some 3600)"
    and "expires (snd (checkRateLimit i w)) = expires w + 1"
    and "fst (checkRateLimit i w) = Inr ()"
proof -
  have up: "backendUp w" and c: "counter i w = Some 0"
    using assms by (simp_all add: backendUp_def counter_def)
  show "faults (snd (checkRateLimit i w)) = []"
    using assms(1) by (rule checkRateLimit_faults_healthy)
  show "counter i (snd (checkRateLimit i w)) = Some 1"
    using checkRateLimit_counter [OF up c] by simp
  show "map_option ttl (redis (snd (checkRateLimit i w)) (rateLimitKey i)) = Some (Some 3600)"
    using checkRateLimit_first_ttl [OF up c] assms(1) by simp
  show "expires (snd (checkRateLimit i w)) = expires w + 1"
    using up c by (simp add: checkRateLimit_expires)
  show "fst (checkRateLimit i w) = Inr ()"
    using checkRateLimit_verdict [OF up c] by simp
qed

lemma callsAt_fresh:
  assumes "faults w = []" "redis w (rateLimitKey i) = None"
    "sum_list ds < 3600" "int (length ds) < 2 ^ 63 - 1"
  shows "faults (callsAt (d # ds) i w) = []
     \<and> counter i (callsAt (d # ds) i w) = Some (1 + int (length ds))
     \<and> map_option ttl (redis (callsAt (d # ds) i w) (rateLimitKey i))
         = Some (Some (3600 - sum_list ds))
     \<and> expires (callsAt (d # ds) i w) = expires w + 1"
proof -
  let ?e = "elapse d w"
  have f: "faults ?e = []" and a: "redis ?e (rateLimitKey i) = None"
    using assms(1,2) by (simp_all add: elapse_absent)
  note first = checkRateLimit_fresh [OF f a]
  have le: "1 + int (length ds) \<le> 2 ^ 63 - 1"
    using assms(4) by simp
  show ?thesis
    using callsAt_window [OF first(1) first(2) _ first(3) assms(3) le] first(4)
    by simp
qed

lemma verdict_in_window:
  assumes "faults w = []" "redis w (rateLimitKey i) = None"
    "sum_list (tl pre) + d < 3600" "int (length pre) < 2 ^ 63 - 1"
  shows "fst (checkRateLimit i (elapse d (callsAt pre i w))) =
     (if length pre < 100 then Inr ()
      else Inl (TRPCError TOO_MANY_REQUESTS ''Rate limit exceeded. Try again later.''))"
proof (cases pre)
  case Nil
  have "faults (elapse d w) = []" "redis (elapse d w) (rateLimitKey i) = None"
    using assms(1,2) by (simp_all add: elapse_absent)
  then show ?thesis
    using Nil by (simp add: checkRateLimit_fresh(5))
next
  case (Cons d0 ds)
  let ?w = "callsAt (d0 # ds) i w"
  have s: "sum_list ds < 3600" and l: "int (length ds) < 2 ^ 63 - 1"
    using assms(3,4) Cons by simp_all
  note run = callsAt_fresh [OF assms(1,2) s l, of d0]
  have d: "d < 3600 - sum_list ds"
    using assms(3) Cons by simp
  have t: "map_option ttl (redis ?w (rateLimitKey i)) = Some (Some (3600 - sum_list ds))"
    using run by simp
  have up: "backendUp (elapse d ?w)"
    using run by (simp add: backendUp_def)
  have c: "counter i (elapse d ?w) = Some (1 + int (length ds))"
    using counter_data [OF elapse_within(2) [OF t d]] run by simp
  have lt: "1 + int (length ds) < 2 ^ 63 - 1"
    using assms(4) Cons by simp
  show ?thesis
    using checkRateLimit_verdict [OF up c lt] Cons by auto
qed

lemma client_incr_down:
  "\<not> backendUp w \<Longrightarrow> fst (client_incr k (getRedisClient w)) = Inl RedisError"
  by (simp add: client_incr_def issue_def)

lemma callsAt_unbounded:
  assumes "faults w = []" "counter i w = Some n" "1 \<le> n"
    "map_option ttl (redis w (rateLimitKey i)) = Some None"
    "n + int (length ds) \<le> 2 ^ 63 - 1"
  shows "faults (callsAt ds i w) = []
     \<and> counter i (callsAt ds i w) = Some (n + int (length ds))
     \<and> map_option ttl (redis (callsAt ds i w) (rateLimitKey i)) = Some None"
  using assms
proof (induction ds arbitrary: w n)
  case Nil
  then show ?case by simp
next
  case (Cons d ds)
  let ?e = "elapse d w"
  let ?w = "snd (checkRateLimit i ?e)"
  have same: "redis ?e (rateLimitKey i) = redis w (rateLimitKey i)"
    using Cons.prems(4) by (rule elapse_unbounded)
  have up: "backendUp ?e"
    using Cons.prems(1) by (simp add: backendUp_def)
  have c: "counter i ?e = Some n"
    using same Cons.prems(2) by (simp add: counter_def)
  have lt: "n < 2 ^ 63 - 1" and nz: "n \<noteq> 0"
    using Cons.prems(3,5) by simp_all
  have 1: "faults ?w = []"
    using Cons.prems(1) by (simp add: checkRateLimit_faults_healthy)
  have 2: "counter i ?w = Some (n + 1)"
    using checkRateLimit_counter [OF up c lt] .
  have 3: "map_option ttl (redis ?w (rateLimitKey i)) = Some None"
    using checkRateLimit_no_refresh [OF c nz] same Cons.prems(4) by simp
  have 5: "n + 1 + int (length ds) \<le> 2 ^ 63 - 1" and 6: "1 \<le> n + 1"
    using Cons.prems(3,5) by simp_all
  show ?case
    using Cons.IH [OF 1 2 6 3 5] by (simp add: algebra_simps)
qed

lemma checkRateLimit_incr_fails:
  assumes "fst (client_incr (rateLimitKey i) (getRedisClient w)) = Inl e"
  shows "fst (checkRateLimit i w) = Inr ()"
    and "events (snd (checkRateLimit i w)) =
           events w @ [Redis (INCR (rateLimitKey i)), ConsoleError ''Rate limit check failed:'']"
    and "redis (snd (checkRateLimit i w)) = redis w"
  using assms
  by (auto simp: rate_defs split: option.splits if_splits)

section \<open>Effects of the cache helpers and the fetcher\<close>

lemmas cache_defs =
  getCached_def getCached_try_def client_get_def setCached_def setCached_try_def
  client_setex_def delCached_def delCached_try_def client_del_def issue_def
  console_error_def Let_def

lemma getCached_never_throws: "fst (getCached J k w) \<noteq> Inl e"
  by (auto simp: cache_defs split: option.splits)

lemma getCached_fields [simp]:
  "redis (snd (getCached J k w)) = redis w"
  "upstream (snd (getCached J k w)) = upstream w"
  "faults (snd (getCached J k w)) = tl (faults w)"
  "fetches (snd (getCached J k w)) = fetches w"
  by (auto simp: cache_defs fetches_def split: option.splits)

lemma getCached_down: "\<not> backendUp w \<Longrightarrow> fst (getCached J k w) = Inr Null"
  by (simp add: cache_defs)

lemma getCached_absent: "redis w k = None \<Longrightarrow> fst (getCached J k w) = Inr Null"
  by (simp add: cache_defs)

lemma getCached_unparsable:
  "redis w k = Some en \<Longrightarrow> parse J (data en) = None \<Longrightarrow> fst (getCached J k w) = Inr Null"
  by (simp add: cache_defs)


lemma getCached_events:
  "\<exists>l. events (snd (getCached J k w)) = events w @ Redis (GET k) # l
       \<and> (l = [] \<or> l = [ConsoleError ''Redis GET error:''])"
  by (auto simp: cache_defs split: option.splits)

lemma setCached_never_throws: "fst (setCached J k v t w) = Inr ()"
  by (simp add: cache_defs)

lemma setCached_redis:
  "redis (snd (setCached J k v t w)) =
     (if backendUp w \<and> t \<noteq> 0 then (redis w)(k \<mapsto> \<lparr>data = stringify J v, ttl = Some t\<rparr>)
      else redis w)"
  by (simp add: cache_defs)

lemma setCached_fields [simp]:
  "upstream (snd (setCached J k v t w)) = upstream w"
  "faults (snd (setCached J k v t w)) = tl (faults w)"
  "fetches (snd (setCached J k v t w)) = fetches w"
  by (auto simp: cache_defs fetches_def)


lemma delCached_never_throws: "fst (delCached k w) = Inr ()"
  by (simp add: cache_defs)

lemma delCached_redis:
  "redis (snd (delCached k w)) = (if backendUp w then (redis w)(k := None) else redis w)"
  by (simp add: cache_defs)

lemma delCached_events:
  "events (snd (delCached k w)) =
     events w @ Redis (DEL k) # (if backendUp w then [] else [ConsoleError ''Redis DEL error:''])"
  by (simp add: cache_defs)

lemma fetchWeather_fields [simp]:
  "redis (snd (fetchWeather l w)) = redis w"
  "upstream (snd (fetchWeather l w)) = upstream w"
  "faults (snd (fetchWeather l w)) = faults w"
  "events (snd (fetchWeather l w)) = events w @ [HttpGet l]"
  "fetches (snd (fetchWeather l w)) = fetches w + 1"
  by (auto simp: fetchWeather_def axios_get_def fetches_def Let_def
      split: http_outcome.splits error.splits)

lemma fetchWeather_ok:
  "upstream w l = Response s d \<Longrightarrow> 200 \<le> s \<Longrightarrow> s < 300 \<Longrightarrow> fst (fetchWeather l w) = Inr d"
  by (simp add: fetchWeather_def axios_get_def Let_def)




lemma fetchWeather_error_kinds:
  "fst (fetchWeather l w) = Inl e \<Longrightarrow>
     e = TRPCError BAD_REQUEST ''Invalid location provided''
   \<or> e = TRPCError INTERNAL_SERVER_ERROR ''Weather API authentication failed''
   \<or> e = TRPCError INTERNAL_SERVER_ERROR ''Weather API request failed''"
  by (auto simp: fetchWeather_def axios_get_def Let_def
      split: http_outcome.splits error.splits if_splits)

lemma cacheKey_not_rateLimitKey: "getCacheKey l \<noteq> rateLimitKey i"
  by (simp add: getCacheKey_def rateLimitKey_def)

section \<open>The paths through \<open>getCurrent\<close>\<close>

lemma getCurrent_empty:
  "getCurrent J h [] w = (Inl (TRPCError BAD_REQUEST ''Input validation failed''), w)"
  by (simp add: getCurrent_def validateInput_def)

lemma getCurrent_rejected:
  assumes "location \<noteq> []" "fst (checkRateLimit (identifierOf h) w) = Inl e"
  shows "getCurrent J h location w = (Inl e, snd (checkRateLimit (identifierOf h) w))"
  using assms
  by (simp add: getCurrent_def validateInput_def Let_def case_prod_beta)

lemma getCurrent_hit:
  assumes "location \<noteq> []" "fst (checkRateLimit (identifierOf h) w) = Inr ()"
    "fst (getCached J (getCacheKey location) (snd (checkRateLimit (identifierOf h) w))) = Inr (Val v)"
  shows "getCurrent J h location w =
     (Inr \<lparr>payload = v, fromCache = True\<rparr>,
      snd (getCached J (getCacheKey location) (snd (checkRateLimit (identifierOf h) w))))"
  using assms
  by (simp add: getCurrent_def validateInput_def Let_def case_prod_beta)

lemma getCurrent_miss:
  assumes "location \<noteq> []" "fst (checkRateLimit (identifierOf h) w) = Inr ()"
    "fst (getCached J (getCacheKey location) (snd (checkRateLimit (identifierOf h) w))) = Inr c"
    "c = Null \<or> c = Falsy"
  shows "getCurrent J h location w =
     (case fst (fetchWeather location
                 (snd (getCached J (getCacheKey location)
                        (snd (checkRateLimit (identifierOf h) w))))) of
        Inl err \<Rightarrow>
          (Inl err,
           snd (fetchWeather location
                 (snd (getCached J (getCacheKey location)
                        (snd (checkRateLimit (identifierOf h) w))))))
      | Inr d \<Rightarrow>
          (Inr \<lparr>payload = d, fromCache = False\<rparr>,
           snd (setCached J (getCacheKey location) d CACHE_TTL_SECONDS
                 (snd (fetchWeather location
                        (snd (getCached J (getCacheKey location)
                               (snd (checkRateLimit (identifierOf h) w)))))))))"
  using assms
  by (auto simp: getCurrent_def validateInput_def Let_def case_prod_beta split: sum.splits)

lemma checkRateLimit_error:
  "fst (checkRateLimit i w) = Inl e \<Longrightarrow>
   e = TRPCError TOO_MANY_REQUESTS ''Rate limit exceeded. Try again later.''
   \<and> backendUp w \<and> (\<exists>n. counter i w = Some n \<and> 100 \<le> n)"
  by (auto simp: rate_defs counter_def split: option.splits if_splits)

lemma getCurrent_fromCache:
  assumes "fst (getCurrent J h location w) = Inr r" "fromCache r"
  shows "location \<noteq> []
     \<and> fst (checkRateLimit (identifierOf h) w) = Inr ()
     \<and> fst (getCached J (getCacheKey location) (snd (checkRateLimit (identifierOf h) w)))
         = Inr (Val (payload r))"
  using assms
  by (auto simp: getCurrent_def validateInput_def Let_def case_prod_beta
      split: sum.splits jsvalue.splits if_splits)

section \<open>The request flow of \<open>getCurrent\<close>\<close>

lemma getCurrent_errors:
  assumes "fst (getCurrent J h location w) = Inl e"
  shows "e = TRPCError BAD_REQUEST ''Input validation failed''
     \<or> fst (checkRateLimit (identifierOf h) w) = Inl e
     \<or> e = TRPCError BAD_REQUEST ''Invalid location provided''
     \<or> e = TRPCError INTERNAL_SERVER_ERROR ''Weather API authentication failed''
     \<or> e = TRPCError INTERNAL_SERVER_ERROR ''Weather API request failed''"
proof (cases "location = []")
  case True
  then show ?thesis
    using assms by (simp add: getCurrent_empty)
next
  case ne: False
  let ?w1 = "snd (checkRateLimit (identifierOf h) w)"
  let ?w2 = "snd (getCached J (getCacheKey location) ?w1)"
  show ?thesis
  proof (cases "fst (checkRateLimit (identifierOf h) w)")
    case (Inl e')
    then show ?thesis
      using assms ne by (simp add: getCurrent_rejected)
  next
    case (Inr u)
    then have adm: "fst (checkRateLimit (identifierOf h) w) = Inr ()" by simp
    obtain c where c: "fst (getCached J (getCacheKey location) ?w1) = Inr c"
      using getCached_never_throws [of J "getCacheKey location" ?w1]
      by (cases "fst (getCached J (getCacheKey location) ?w1)") auto
    show ?thesis
    proof (cases c)
      case (Val v)
      then show ?thesis
        using assms getCurrent_hit [OF ne adm, of J v] c by simp
    next
      case Null
      then have "fst (fetchWeather location ?w2) = Inl e"
        using assms getCurrent_miss [OF ne adm c] by (simp split: sum.splits)
      then show ?thesis
        using fetchWeather_error_kinds [of location ?w2 e] by simp
    next
      case Falsy
      then have "fst (fetchWeather location ?w2) = Inl e"
        using assms getCurrent_miss [OF ne adm c] by (simp split: sum.splits)
      then show ?thesis
        using fetchWeather_error_kinds [of location ?w2 e] by simp
    qed
  qed
qed




section \<open>Admission by the rate limiter\<close>

text \<open>
  C3. A call whose \<open>INCR\<close> reaches the store increments the caller's counter, and it is
  admitted exactly when the incremented value is at most 100; beyond that it is rejected
  with \<open>TOO_MANY_REQUESTS\<close>. Hence, starting from an absent counter with a healthy
  backend, the call made after any run \<open>pre\<close> of earlier calls in the same window (less
  than 3600 seconds since the first call) is admitted when fewer than 100 calls came before
  it and rejected otherwise: the first 100 calls pass and the 101st is rejected. A
  rejection by the limiter is the answer of \<open>getCurrent\<close>, status 429.
\<close>

theorem checkRateLimit_limit:
  "(backendUp w \<and> counter i w = Some n \<and> n < 2 ^ 63 - 1 \<longrightarrow>
      counter i (snd (checkRateLimit i w)) = Some (n + 1)
      \<and> fst (checkRateLimit i w) =
          (if n + 1 \<le> 100 then Inr ()
           else Inl (TRPCError TOO_MANY_REQUESTS ''Rate limit exceeded. Try again later.'')))
   \<and> (faults w = [] \<and> redis w (rateLimitKey i) = None
        \<and> sum_list (tl pre) + d < 3600 \<and> int (length pre) < 2 ^ 63 - 1 \<longrightarrow>
      fst (checkRateLimit i (elapse d (callsAt pre i w))) =
          (if length pre < 100 then Inr ()
           else Inl (TRPCError TOO_MANY_REQUESTS ''Rate limit exceeded. Try again later.'')))
   \<and> (location \<noteq> [] \<and> fst (checkRateLimit (identifierOf h) w) = Inl e \<longrightarrow>
      fst (getCurrent J h location w) = Inl e)
   \<and> httpStatus TOO_MANY_REQUESTS = 429"
proof (intro conjI impI)
  show "httpStatus TOO_MANY_REQUESTS = 429"
    by (simp add: httpStatus_def)
next
  assume "location \<noteq> [] \<and> fst (checkRateLimit (identifierOf h) w) = Inl e"
  then show "fst (getCurrent J h location w) = Inl e"
    by (simp add: getCurrent_rejected)
next
  assume a: "backendUp w \<and> counter i w = Some n \<and> n < 2 ^ 63 - 1"
  then show "counter i (snd (checkRateLimit i w)) = Some (n + 1)"
    using checkRateLimit_counter [of w i n] by simp
  from a show "fst (checkRateLimit i w) =
      (if n + 1 \<le> 100 then Inr ()
       else Inl (TRPCError TOO_MANY_REQUESTS ''Rate limit exceeded. Try again later.''))"
    using checkRateLimit_verdict [of w i n] by simp
next
  assume "faults w = [] \<and> redis w (rateLimitKey i) = None
    \<and> sum_list (tl pre) + d < 3600 \<and> int (length pre) < 2 ^ 63 - 1"
  then show "fst (checkRateLimit i (elapse d (callsAt pre i w))) =
      (if length pre < 100 then Inr ()
       else Inl (TRPCError TOO_MANY_REQUESTS ''Rate limit exceeded. Try again later.''))"
    using verdict_in_window [of w i pre d] by simp
qed

theorem checkRateLimit_limit_witness:
  "backendUp exhaustedWorld \<and> counter ''default'' exhaustedWorld = Some 100
   \<and> counter ''default'' (snd (checkRateLimit ''default'' exhaustedWorld)) = Some 101
   \<and> fst (checkRateLimit ''default'' exhaustedWorld)
       = Inl (TRPCError TOO_MANY_REQUESTS ''Rate limit exceeded. Try again later.'')
   \<and> faults exampleWorld = [] \<and> redis exampleWorld (rateLimitKey ''default'') = None
   \<and> fst (checkRateLimit ''default'' (elapse 30 (callsAt (replicate 99 30) ''default'' exampleWorld)))
       = Inr ()
   \<and> fst (checkRateLimit ''default'' (elapse 30 (callsAt (replicate 100 30) ''default'' exampleWorld)))
       = Inl (TRPCError TOO_MANY_REQUESTS ''Rate limit exceeded. Try again later.'')
   \<and> fst (getCurrent exampleJSON None ''Paris'' exhaustedWorld)
       = Inl (TRPCError TOO_MANY_REQUESTS ''Rate limit exceeded. Try again later.'')"
proof -
  have up: "backendUp exhaustedWorld" and c: "counter ''default'' exhaustedWorld = Some 100"
    by code_simp+
  have f: "faults exampleWorld = []" and a: "redis exampleWorld (rateLimitKey ''default'') = None"
    by code_simp+
  have 1: "counter ''default'' (snd (checkRateLimit ''default'' exhaustedWorld)) = Some 101
    \<and> fst (checkRateLimit ''default'' exhaustedWorld)
       = Inl (TRPCError TOO_MANY_REQUESTS ''Rate limit exceeded. Try again later.'')"
    using checkRateLimit_limit [of exhaustedWorld "''default''" 100] up c by simp
  have 2: "fst (checkRateLimit ''default''
      (elapse 30 (callsAt (replicate 99 30) ''default'' exampleWorld))) = Inr ()"
    using checkRateLimit_limit [of exampleWorld "''default''" 0 "replicate 99 30" 30] f a
    by (simp add: sum_list_replicate)
  have 3: "fst (checkRateLimit ''default''
      (elapse 30 (callsAt (replicate 100 30) ''default'' exampleWorld)))
       = Inl (TRPCError TOO_MANY_REQUESTS ''Rate limit exceeded. Try again later.'')"
    using checkRateLimit_limit [of exampleWorld "''default''" 0 "replicate 100 30" 30] f a
    by (simp add: sum_list_replicate)
  have i: "identifierOf None = ''default''"
    by code_simp
  have 4: "fst (getCurrent exampleJSON None ''Paris'' exhaustedWorld)
       = Inl (TRPCError TOO_MANY_REQUESTS ''Rate limit exceeded. Try again later.'')"
    using checkRateLimit_limit [where w = exhaustedWorld and location = "''Paris''" and h = None
        and J = exampleJSON
        and e = "TRPCError TOO_MANY_REQUESTS ''Rate limit exceeded. Try again later.''"]
      1 i
    by simp
  from up c f a 1 2 3 4 show ?thesis by blast
qed

text \<open>
  C4. A call issues \<open>EXPIRE\<close> exactly when its \<open>INCR\<close> reached the store and returned 1,
  and that \<open>EXPIRE\<close>, reaching the store, sets the time to live to 3600 seconds. A call
  that finds a counter different from 0 leaves the key's time to live as it was, whatever
  the backend does. Hence in a run of calls that starts from an absent counter with a
  healthy backend and stays within the window, exactly one \<open>EXPIRE\<close> is issued, by the
  first call, and the time to live keeps counting down from that call: after delays \<open>ds\<close>
  it is \<open>3600 - sum_list ds\<close>. The window is fixed, not sliding.
\<close>

theorem checkRateLimit_expiry_once:
  "expires (snd (checkRateLimit i w)) =
      expires w + (if backendUp w \<and> counter i w = Some 0 then 1 else 0)
   \<and> (backendUp w \<and> counter i w = Some 0 \<and> backendUp (w\<lparr>faults := tl (faults w)\<rparr>) \<longrightarrow>
        map_option ttl (redis (snd (checkRateLimit i w)) (rateLimitKey i)) = Some (Some 3600))
   \<and> (counter i w = Some n \<and> n \<noteq> 0 \<longrightarrow>
        map_option ttl (redis (snd (checkRateLimit i w)) (rateLimitKey i))
          = map_option ttl (redis w (rateLimitKey i)))
   \<and> (faults w = [] \<and> redis w (rateLimitKey i) = None
        \<and> sum_list ds < 3600 \<and> int (length ds) < 2 ^ 63 - 1 \<longrightarrow>
        expires (callsAt (d # ds) i w) = expires w + 1
        \<and> counter i (callsAt (d # ds) i w) = Some (1 + int (length ds))
        \<and> map_option ttl (redis (callsAt (d # ds) i w) (rateLimitKey i))
            = Some (Some (3600 - sum_list ds)))"
proof (intro conjI impI)
  show "expires (snd (checkRateLimit i w)) =
      expires w + (if backendUp w \<and> counter i w = Some 0 then 1 else 0)"
    by (rule checkRateLimit_expires)
next
  assume "backendUp w \<and> counter i w = Some 0 \<and> backendUp (w\<lparr>faults := tl (faults w)\<rparr>)"
  then show "map_option ttl (redis (snd (checkRateLimit i w)) (rateLimitKey i))
      = Some (Some 3600)"
    using checkRateLimit_first_ttl [of w i] by blast
next
  assume "counter i w = Some n \<and> n \<noteq> 0"
  then show "map_option ttl (redis (snd (checkRateLimit i w)) (rateLimitKey i))
      = map_option ttl (redis w (rateLimitKey i))"
    using checkRateLimit_no_refresh [of i w n] by blast
next
  assume "faults w = [] \<and> redis w (rateLimitKey i) = None
    \<and> sum_list ds < 3600 \<and> int (length ds) < 2 ^ 63 - 1"
  then have run: "faults (callsAt (d # ds) i w) = []
     \<and> counter i (callsAt (d # ds) i w) = Some (1 + int (length ds))
     \<and> map_option ttl (redis (callsAt (d # ds) i w) (rateLimitKey i))
         = Some (Some (3600 - sum_list ds))
     \<and> expires (callsAt (d # ds) i w) = expires w + 1"
    using callsAt_fresh [of w i ds d] by blast
  from run show "expires (callsAt (d # ds) i w) = expires w + 1" by blast
  from run show "counter i (callsAt (d # ds) i w) = Some (1 + int (length ds))" by blast
  from run show "map_option ttl (redis (callsAt (d # ds) i w) (rateLimitKey i))
      = Some (Some (3600 - sum_list ds))" by blast
qed

theorem checkRateLimit_expiry_once_witness:
  "backendUp exampleWorld \<and> counter ''a'' exampleWorld = Some 0
   \<and> expires (snd (checkRateLimit ''a'' exampleWorld)) = 1
   \<and> map_option ttl (redis (snd (checkRateLimit ''a'' exampleWorld)) (rateLimitKey ''a''))
       = Some (Some 3600)
   \<and> counter ''default'' exhaustedWorld = Some 100
   \<and> expires (snd (checkRateLimit ''default'' exhaustedWorld)) = 0
   \<and> map_option ttl (redis (snd (checkRateLimit ''default'' exhaustedWorld))
         (rateLimitKey ''default'')) = Some (Some 1800)
   \<and> expires (callsAt [0, 600, 900, 1200] ''a'' exampleWorld) = 1
   \<and> counter ''a'' (callsAt [0, 600, 900, 1200] ''a'' exampleWorld) = Some 4
   \<and> map_option ttl (redis (callsAt [0, 600, 900, 1200] ''a'' exampleWorld) (rateLimitKey ''a''))
       = Some (Some 900)"
proof -
  have up: "backendUp exampleWorld" "backendUp (exampleWorld\<lparr>faults := tl (faults exampleWorld)\<rparr>)"
    and c0: "counter ''a'' exampleWorld = Some 0"
    and c100: "counter ''default'' exhaustedWorld = Some 100"
    and f: "faults exampleWorld = []" and a: "redis exampleWorld (rateLimitKey ''a'') = None"
    and e0: "expires exampleWorld = 0" "expires exhaustedWorld = 0"
    and t: "map_option ttl (redis exhaustedWorld (rateLimitKey ''default'')) = Some (Some 1800)"
    by code_simp+
  have 1: "expires (snd (checkRateLimit ''a'' exampleWorld)) = 1
    \<and> map_option ttl (redis (snd (checkRateLimit ''a'' exampleWorld)) (rateLimitKey ''a''))
       = Some (Some 3600)"
    using checkRateLimit_expiry_once [of "''a''" exampleWorld 0 "[]" 0] up c0 e0 by simp
  have 2: "expires (snd (checkRateLimit ''default'' exhaustedWorld)) = 0
    \<and> map_option ttl (redis (snd (checkRateLimit ''default'' exhaustedWorld))
         (rateLimitKey ''default'')) = Some (Some 1800)"
    using checkRateLimit_expiry_once [of "''default''" exhaustedWorld 100 "[]" 0] c100 e0 t
    by simp
  have 3: "expires (callsAt [0, 600, 900, 1200] ''a'' exampleWorld) = 1
    \<and> counter ''a'' (callsAt [0, 600, 900, 1200] ''a'' exampleWorld) = Some 4
    \<and> map_option ttl (redis (callsAt [0, 600, 900, 1200] ''a'' exampleWorld) (rateLimitKey ''a''))
       = Some (Some 900)"
    using checkRateLimit_expiry_once [of "''a''" exampleWorld 0 "[600, 900, 1200]" 0] f a e0
    by simp
  from up c0 c100 1 2 3 show ?thesis by blast
qed

text \<open>
  C8. When the \<open>INCR\<close> of the window counter fails (the backend rejects the command, the
  stored value is no integer, or the increment would overflow), \<open>checkRateLimit\<close> returns
  normally: the request is admitted, the failure is written to the console and the store
  is left as it was. A backend that is down makes \<open>INCR\<close> fail, and a request whose
  \<open>INCR\<close> failed is never answered with \<open>TOO_MANY_REQUESTS\<close>.
\<close>

theorem checkRateLimit_fails_open:
  "(fst (client_incr (rateLimitKey i) (getRedisClient w)) = Inl e \<longrightarrow>
      fst (checkRateLimit i w) = Inr ()
      \<and> events (snd (checkRateLimit i w)) =
          events w @ [Redis (INCR (rateLimitKey i)), ConsoleError ''Rate limit check failed:'']
      \<and> redis (snd (checkRateLimit i w)) = redis w)
   \<and> (\<not> backendUp w \<longrightarrow> fst (client_incr (rateLimitKey i) (getRedisClient w)) = Inl RedisError)
   \<and> (fst (client_incr (rateLimitKey (identifierOf h)) (getRedisClient w)) = Inl e \<longrightarrow>
        fst (getCurrent J h location w) \<noteq> Inl (TRPCError TOO_MANY_REQUESTS m))"
proof (intro conjI impI)
  assume a: "fst (client_incr (rateLimitKey i) (getRedisClient w)) = Inl e"
  show "fst (checkRateLimit i w) = Inr ()"
    using a by (rule checkRateLimit_incr_fails(1))
  show "events (snd (checkRateLimit i w)) =
      events w @ [Redis (INCR (rateLimitKey i)), ConsoleError ''Rate limit check failed:'']"
    using a by (rule checkRateLimit_incr_fails(2))
  show "redis (snd (checkRateLimit i w)) = redis w"
    using a by (rule checkRateLimit_incr_fails(3))
next
  assume "\<not> backendUp w"
  then show "fst (client_incr (rateLimitKey i) (getRedisClient w)) = Inl RedisError"
    by (rule client_incr_down)
next
  assume a: "fst (client_incr (rateLimitKey (identifierOf h)) (getRedisClient w)) = Inl e"
  have adm: "fst (checkRateLimit (identifierOf h) w) = Inr ()"
    using a by (rule checkRateLimit_incr_fails(1))
  show "fst (getCurrent J h location w) \<noteq> Inl (TRPCError TOO_MANY_REQUESTS m)"
  proof
    assume "fst (getCurrent J h location w) = Inl (TRPCError TOO_MANY_REQUESTS m)"
    from getCurrent_errors [OF this] adm show False by simp
  qed
qed

theorem checkRateLimit_fails_open_witness:
  "\<not> backendUp (exhaustedWorld\<lparr>faults := [True]\<rparr>)
   \<and> fst (client_incr (rateLimitKey ''default'')
         (getRedisClient (exhaustedWorld\<lparr>faults := [True]\<rparr>))) = Inl RedisError
   \<and> fst (checkRateLimit ''default'' (exhaustedWorld\<lparr>faults := [True]\<rparr>)) = Inr ()
   \<and> events (snd (checkRateLimit ''default'' (exhaustedWorld\<lparr>faults := [True]\<rparr>))) =
       [Redis (INCR (rateLimitKey ''default'')), ConsoleError ''Rate limit check failed:'']
   \<and> fst (getCurrent exampleJSON None ''Paris'' (exhaustedWorld\<lparr>faults := [True]\<rparr>))
       \<noteq> Inl (TRPCError TOO_MANY_REQUESTS ''Rate limit exceeded. Try again later.'')"
proof -
  let ?w = "exhaustedWorld\<lparr>faults := [True]\<rparr>"
  have down: "\<not> backendUp ?w" and ev: "events ?w = []"
    and i: "identifierOf None = ''default''"
    by code_simp+
  note fo = checkRateLimit_fails_open [of "''default''" ?w RedisError None exampleJSON
      "''Paris''" "''Rate limit exceeded. Try again later.''"]
  have f: "fst (client_incr (rateLimitKey ''default'') (getRedisClient ?w)) = Inl RedisError"
    using fo down by blast
  show ?thesis
    using fo down f ev i by simp
qed

lemma lost_expiry_first_call:
  "faults (snd (checkRateLimit ''default'' (exampleWorld\<lparr>faults := [False, True]\<rparr>))) = []"
  "counter ''default'' (snd (checkRateLimit ''default'' (exampleWorld\<lparr>faults := [False, True]\<rparr>)))
     = Some 1"
  "map_option ttl (redis (snd (checkRateLimit ''default''
      (exampleWorld\<lparr>faults := [False, True]\<rparr>))) (rateLimitKey ''default'')) = Some None"
  "fst (checkRateLimit ''default'' (exampleWorld\<lparr>faults := [False, True]\<rparr>)) = Inr ()"
  by code_simp+

text \<open>
  C9 fails on the code. The first call of a caller increments the counter to 1 and then
  sets the expiry in a second command; when that \<open>EXPIRE\<close> is rejected, the error is
  swallowed and the counter stays without a time to live. No later call sets one, since
  only the value 1 triggers \<open>EXPIRE\<close>, so the window never ends: the 101st request is
  rejected even when the requests are a day apart.
\<close>

theorem checkRateLimit_lost_expiry:
  "fst (checkRateLimit ''default'' (exampleWorld\<lparr>faults := [False, True]\<rparr>)) = Inr ()
   \<and> redis (snd (checkRateLimit ''default'' (exampleWorld\<lparr>faults := [False, True]\<rparr>)))
         (rateLimitKey ''default'') = Some \<lparr>data = ''1'', ttl = None\<rparr>
   \<and> map_option ttl (redis
         (callsAt (replicate 99 86400) ''default''
           (snd (checkRateLimit ''default'' (exampleWorld\<lparr>faults := [False, True]\<rparr>))))
         (rateLimitKey ''default'')) = Some None
   \<and> fst (checkRateLimit ''default''
         (elapse 86400
           (callsAt (replicate 99 86400) ''default''
             (snd (checkRateLimit ''default'' (exampleWorld\<lparr>faults := [False, True]\<rparr>))))))
       = Inl (TRPCError TOO_MANY_REQUESTS ''Rate limit exceeded. Try again later.'')"
proof -
  let ?w1 = "snd (checkRateLimit ''default'' (exampleWorld\<lparr>faults := [False, True]\<rparr>))"
  let ?w = "callsAt (replicate 99 86400) ''default'' ?w1"
  have e: "redis ?w1 (rateLimitKey ''default'') = Some \<lparr>data = ''1'', ttl = None\<rparr>"
    by code_simp
  have run: "faults ?w = [] \<and> counter ''default'' ?w = Some (1 + int (length (replicate 99 86400 :: nat list)))
     \<and> map_option ttl (redis ?w (rateLimitKey ''default'')) = Some None"
    by (rule callsAt_unbounded [OF lost_expiry_first_call(1,2) _ lost_expiry_first_call(3)])
      simp_all
  then have c: "counter ''default'' ?w = Some 100"
    and t: "map_option ttl (redis ?w (rateLimitKey ''default'')) = Some None"
    and f: "faults ?w = []"
    by simp_all
  have same: "redis (elapse 86400 ?w) (rateLimitKey ''default'') = redis ?w (rateLimitKey ''default'')"
    using t by (rule elapse_unbounded)
  have c': "counter ''default'' (elapse 86400 ?w) = Some 100"
    using same c by (simp add: counter_def)
  have up: "backendUp (elapse 86400 ?w)"
    using f by (simp add: backendUp_def)
  have "fst (checkRateLimit ''default'' (elapse 86400 ?w))
      = Inl (TRPCError TOO_MANY_REQUESTS ''Rate limit exceeded. Try again later.'')"
    using checkRateLimit_verdict [OF up c'] by simp
  then show ?thesis
    using lost_expiry_first_call(4) e t by blast
qed

section \<open>Best-effort cache, invalidation and the fetcher\<close>

lemma clearCache_always_succeeds:
  "location \<noteq> [] \<Longrightarrow> fst (clearCache location w) = Inr True"
  by (simp add: clearCache_def validateInput_def Let_def case_prod_beta
      delCached_never_throws)

text \<open>
  C5 fails on the code. \<open>delCached\<close> catches the failure of \<open>DEL\<close> itself, so the
  \<open>catch\<close> of \<open>clearCache\<close> never runs: with the backend down the entry stays in the
  store and the caller is still answered \<open>{ success: true }\<close>.
\<close>

theorem clearCache_swallows_failure:
  "getCacheKey ''Paris'' = ''weather:paris''
   \<and> \<not> backendUp (cachedWorld\<lparr>faults := [True]\<rparr>)
   \<and> fst (clearCache ''Paris'' (cachedWorld\<lparr>faults := [True]\<rparr>)) = Inr True
   \<and> redis (snd (clearCache ''Paris'' (cachedWorld\<lparr>faults := [True]\<rparr>))) ''weather:paris''
       = Some \<lparr>data = ''{temp:19}'', ttl = Some 600\<rparr>
   \<and> events (snd (clearCache ''Paris'' (cachedWorld\<lparr>faults := [True]\<rparr>)))
       = [Redis (DEL ''weather:paris''), ConsoleError ''Redis DEL error:'']"
  by code_simp

text \<open>
  C6. \<open>getCached\<close> never throws: when the command is rejected or the stored text does
  not parse, it returns \<open>null\<close>. \<open>setCached\<close> never throws either, and a rejected write
  leaves the store as it was. With the backend down for every command of a request
  (the failure schedule starts with three failures, for \<open>INCR\<close>, \<open>GET\<close> and \<open>SETEX\<close>),
  \<open>getCurrent\<close> on a location the provider answers with a 2xx status returns the fetched
  data with \<open>fromCache = false\<close> and leaves the store untouched.
\<close>

theorem cache_best_effort:
  "fst (getCached J k w) \<noteq> Inl e
   \<and> (\<not> backendUp w \<longrightarrow> fst (getCached J k w) = Inr Null)
   \<and> (redis w k = Some en \<and> parse J (data en) = None \<longrightarrow> fst (getCached J k w) = Inr Null)
   \<and> fst (setCached J k v t w) = Inr ()
   \<and> (\<not> backendUp w \<longrightarrow> redis (snd (setCached J k v t w)) = redis w)
   \<and> (location \<noteq> [] \<and> faults w = True # True # True # fs
        \<and> upstream w location = Response s d \<and> 200 \<le> s \<and> s < 300 \<longrightarrow>
        fst (getCurrent J h location w) = Inr \<lparr>payload = d, fromCache = False\<rparr>
        \<and> redis (snd (getCurrent J h location w)) = redis w)"
proof (intro conjI impI)
  show "fst (getCached J k w) \<noteq> Inl e"
    by (rule getCached_never_throws)
  show "fst (setCached J k v t w) = Inr ()"
    by (rule setCached_never_throws)
next
  assume "\<not> backendUp w"
  then show "fst (getCached J k w) = Inr Null"
    by (rule getCached_down)
next
  assume "redis w k = Some en \<and> parse J (data en) = None"
  then show "fst (getCached J k w) = Inr Null"
    using getCached_unparsable [of w k en J] by blast
next
  assume "\<not> backendUp w"
  then show "redis (snd (setCached J k v t w)) = redis w"
    by (simp add: setCached_redis)
next
  let ?i = "identifierOf h"
  let ?w1 = "snd (checkRateLimit ?i w)"
  let ?w2 = "snd (getCached J (getCacheKey location) ?w1)"
  let ?w3 = "snd (fetchWeather location ?w2)"
  assume a: "location \<noteq> [] \<and> faults w = True # True # True # fs
    \<and> upstream w location = Response s d \<and> 200 \<le> s \<and> s < 300"
  then have fs: "faults w = True # True # True # fs"
    by simp
  have down: "\<not> backendUp w"
    using fs by (simp add: backendUp_def)
  have w1: "checkRateLimit ?i w =
     (Inr (), (getRedisClient w)\<lparr>faults := tl (faults w),
        events := events w @ [Redis (INCR (rateLimitKey ?i)),
          ConsoleError ''Rate limit check failed:'']\<rparr>)"
    using down by (rule checkRateLimit_down)
  have adm: "fst (checkRateLimit ?i w) = Inr ()"
    by (simp add: w1)
  have f1: "faults ?w1 = True # True # fs" and r1: "redis ?w1 = redis w"
    by (simp_all add: w1 fs)
  have miss: "fst (getCached J (getCacheKey location) ?w1) = Inr Null"
    using f1 by (simp add: getCached_down backendUp_def)
  have f3: "faults ?w3 = True # fs"
    using f1 by simp
  have ok: "fst (fetchWeather location ?w2) = Inr d"
    using a by (simp add: fetchWeather_ok)
  have eq: "getCurrent J h location w =
     (Inr \<lparr>payload = d, fromCache = False\<rparr>,
      snd (setCached J (getCacheKey location) d CACHE_TTL_SECONDS ?w3))"
    using a getCurrent_miss [OF _ adm miss] ok by simp
  show "fst (getCurrent J h location w) = Inr \<lparr>payload = d, fromCache = False\<rparr>"
    by (simp add: eq)
  show "redis (snd (getCurrent J h location w)) = redis w"
    using f3 r1 by (simp add: eq setCached_redis backendUp_def)
qed

theorem cache_best_effort_witness:
  "\<not> backendUp (cachedWorld\<lparr>faults := [True, True, True]\<rparr>)
   \<and> fst (getCached exampleJSON ''weather:paris'' (cachedWorld\<lparr>faults := [True, True, True]\<rparr>))
       = Inr Null
   \<and> redis (snd (setCached exampleJSON ''weather:paris'' ''{temp:21}'' 43200
         (cachedWorld\<lparr>faults := [True, True, True]\<rparr>))) = redis cachedWorld
   \<and> parse exampleJSON ''<html>'' = None
   \<and> fst (getCached exampleJSON ''weather:paris''
         (exampleWorld\<lparr>redis := [''weather:paris'' \<mapsto> \<lparr>data = ''<html>'', ttl = Some 600\<rparr>]\<rparr>))
       = Inr Null
   \<and> upstream (cachedWorld\<lparr>faults := [True, True, True]\<rparr>) ''Paris'' = Response 200 ''{temp:21}''
   \<and> fst (getCurrent exampleJSON None ''Paris'' (cachedWorld\<lparr>faults := [True, True, True]\<rparr>))
       = Inr \<lparr>payload = ''{temp:21}'', fromCache = False\<rparr>"
proof -
  let ?w = "cachedWorld\<lparr>faults := [True, True, True]\<rparr>"
  let ?c = "exampleWorld\<lparr>redis := [''weather:paris'' \<mapsto> \<lparr>data = ''<html>'', ttl = Some 600\<rparr>]\<rparr>"
  have down: "\<not> backendUp ?w"
    and f: "faults ?w = True # True # True # []"
    and up: "upstream ?w ''Paris'' = Response 200 ''{temp:21}''"
    and bad: "parse exampleJSON ''<html>'' = None"
    and en: "redis ?c ''weather:paris'' = Some \<lparr>data = ''<html>'', ttl = Some 600\<rparr>"
    by code_simp+
  have 1: "fst (getCached exampleJSON ''weather:paris'' ?w) = Inr Null
     \<and> redis (snd (setCached exampleJSON ''weather:paris'' ''{temp:21}'' 43200 ?w)) = redis cachedWorld
     \<and> fst (getCurrent exampleJSON None ''Paris'' ?w)
         = Inr \<lparr>payload = ''{temp:21}'', fromCache = False\<rparr>"
    using cache_best_effort [where J = exampleJSON and k = "''weather:paris''" and w = ?w
        and v = "''{temp:21}''" and t = 43200 and location = "''Paris''" and fs = "[]"
        and s = 200 and d = "''{temp:21}''" and h = None]
      down f up
    by simp
  have 2: "fst (getCached exampleJSON ''weather:paris'' ?c) = Inr Null"
    using cache_best_effort [where J = exampleJSON and k = "''weather:paris''" and w = ?c
        and en = "\<lparr>data = ''<html>'', ttl = Some 600\<rparr>"]
      bad en
    by simp
  from down bad up 1 2 show ?thesis by blast
qed



section \<open>The cache-hit path leaves the cache alone\<close>

lemma getCached_hit_events:
  "fst (getCached J k w) = Inr (Val v) \<Longrightarrow>
   events (snd (getCached J k w)) = events w @ [Redis (GET k)]"
  by (auto simp: cache_defs split: option.splits if_splits)

text \<open>
  C10. \<open>getCached\<close> leaves the whole store as it was, values and times to live alike.
  When \<open>getCurrent\<close> answers from the cache, no outbound call is made, the commands
  issued are those of the rate limiter followed by the one \<open>GET\<close>, and every key other
  than the caller's rate-limit counter, the weather entry among them, holds after the
  request what it held before.
\<close>

theorem cache_hit_frame:
  "redis (snd (getCached J k w)) = redis w
   \<and> (fst (getCurrent J h location w) = Inr r \<and> fromCache r \<longrightarrow>
        (\<forall>k'. k' \<noteq> rateLimitKey (identifierOf h) \<longrightarrow>
               redis (snd (getCurrent J h location w)) k' = redis w k')
        \<and> redis (snd (getCurrent J h location w)) (getCacheKey location)
            = redis w (getCacheKey location)
        \<and> fetches (snd (getCurrent J h location w)) = fetches w
        \<and> events (snd (getCurrent J h location w))
            = events (snd (checkRateLimit (identifierOf h) w))
              @ [Redis (GET (getCacheKey location))])"
proof (intro conjI impI allI)
  show "redis (snd (getCached J k w)) = redis w"
    by simp
next
  let ?w1 = "snd (checkRateLimit (identifierOf h) w)"
  assume a: "fst (getCurrent J h location w) = Inr r \<and> fromCache r"
  then have path: "location \<noteq> []" "fst (checkRateLimit (identifierOf h) w) = Inr ()"
    "fst (getCached J (getCacheKey location) ?w1) = Inr (Val (payload r))"
    using getCurrent_fromCache [of J h location w r] by simp_all
  have eq: "getCurrent J h location w =
     (Inr \<lparr>payload = payload r, fromCache = True\<rparr>, snd (getCached J (getCacheKey location) ?w1))"
    using path by (rule getCurrent_hit)
  show "redis (snd (getCurrent J h location w)) (getCacheKey location)
      = redis w (getCacheKey location)"
    by (simp add: eq checkRateLimit_frame cacheKey_not_rateLimitKey)
  show "fetches (snd (getCurrent J h location w)) = fetches w"
    by (simp add: eq)
  show "events (snd (getCurrent J h location w))
      = events ?w1 @ [Redis (GET (getCacheKey location))]"
    using path(3) by (simp add: eq getCached_hit_events)
  fix k'
  assume "k' \<noteq> rateLimitKey (identifierOf h)"
  then show "redis (snd (getCurrent J h location w)) k' = redis w k'"
    by (simp add: eq checkRateLimit_frame)
qed

theorem cache_hit_frame_witness:
  "fst (getCurrent exampleJSON None ''Paris'' cachedWorld)
     = Inr \<lparr>payload = ''{temp:19}'', fromCache = True\<rparr>
   \<and> redis (snd (getCurrent exampleJSON None ''Paris'' cachedWorld)) ''weather:paris''
       = Some \<lparr>data = ''{temp:19}'', ttl = Some 600\<rparr>
   \<and> fetches (snd (getCurrent exampleJSON None ''Paris'' cachedWorld)) = 0
   \<and> events (snd (getCurrent exampleJSON None ''Paris'' cachedWorld))
       = [Redis (INCR ''ratelimit:weather:default''),
          Redis (EXPIRE ''ratelimit:weather:default'' 3600),
          Redis (GET ''weather:paris'')]"
proof -
  have r: "fst (getCurrent exampleJSON None ''Paris'' cachedWorld)
     = Inr \<lparr>payload = ''{temp:19}'', fromCache = True\<rparr>"
    and k: "getCacheKey ''Paris'' = ''weather:paris''"
    and i: "''weather:paris'' \<noteq> rateLimitKey (identifierOf None)"
    and e: "redis cachedWorld ''weather:paris'' = Some \<lparr>data = ''{temp:19}'', ttl = Some 600\<rparr>"
    and f0: "fetches cachedWorld = 0"
    and ev: "events (snd (checkRateLimit (identifierOf None) cachedWorld))
       = [Redis (INCR ''ratelimit:weather:default''),
          Redis (EXPIRE ''ratelimit:weather:default'' 3600)]"
    by code_simp+
  show ?thesis
    using cache_hit_frame [of exampleJSON "''weather:paris''" cachedWorld None "''Paris''"
        "\<lparr>payload = ''{temp:19}'', fromCache = True\<rparr>"] r k e f0 ev
    by simp
qed

end
